theory Spec2Isabelle
  imports Main "HOL-Library.Multiset" "HOL-Library.AList"
begin

section \<open>Model\<close>

subsection \<open>The windowed range scan of pynab/db.py\<close>

text \<open>
  The partitioning column is an integer column (the docstring of \<open>column_windows\<close>
  speaks of ids), so a column is a function from rows to Python integers, \<open>int\<close>.
  A session is the state of the table it reads: the list of its rows.

  \<open>int_for_range\<close> builds one of two SQL predicates on the column:
  \<open>and_(column >= start_id, column < end_id)\<close> or \<open>column >= start_id\<close>.
\<close>

datatype whereclause = And_ge_lt int int | Ge int

text \<open>
  The test \<open>if end_id:\<close> is Python truthiness: \<open>None\<close> is false, and so is the
  integer \<open>0\<close>.
\<close>

definition int_for_range :: "int \<Rightarrow> int option \<Rightarrow> whereclause" where
  "int_for_range start_id end_id =
     (case end_id of
        Some e \<Rightarrow> if e \<noteq> 0 then And_ge_lt start_id e else Ge start_id
      | None \<Rightarrow> Ge start_id)"

text \<open>The rows a predicate selects, by the value of their column.\<close>

fun holds :: "whereclause \<Rightarrow> int \<Rightarrow> bool" where
  "holds (And_ge_lt start_id end_id) c = (start_id \<le> c \<and> c < end_id)"
| "holds (Ge start_id) c = (start_id \<le> c)"

text \<open>
  The inner query, \<open>session.query(column, func.row_number().over(order_by=column))\<close>:
  every row of the table gives one result row, its column value with its 1-based rank in
  ascending order of the column. The ranking pass produces them in rank order.
\<close>

definition rownum_query :: "'r list \<Rightarrow> ('r \<Rightarrow> int) \<Rightarrow> (int \<times> nat) list" where
  "rownum_query session column =
     (let ids = sort (map column session) in zip ids (map Suc [0..<length ids]))"

text \<open>
  \<open>from_self(column)\<close> selects the column from that query, filtered by
  \<open>rownum % windowsize = 1\<close> only if \<open>windowsize > 1\<close>; then
  \<open>intervals = [id for id, in q]\<close>. The outer query has no \<open>ORDER BY\<close> of its own.
  With the filter, the database computes the ranks and returns the rows that are kept in
  rank order. Without it nothing refers to \<open>rownum\<close>: the database does not compute
  the ranks and returns the column values in the order of the table.
\<close>

definition intervals :: "'r list \<Rightarrow> ('r \<Rightarrow> int) \<Rightarrow> int \<Rightarrow> int list" where
  "intervals session column windowsize =
     (if windowsize > 1
      then map fst (filter (\<lambda>(i, rownum). int rownum mod windowsize = 1)
                           (rownum_query session column))
      else map column session)"

text \<open>
  The \<open>while intervals:\<close> loop: pop the first boundary, look at the next one if there is
  one, yield the predicate. The generator's output is the list of what it yields.
\<close>

fun column_windows_loop :: "int list \<Rightarrow> whereclause list" where
  "column_windows_loop [] = []"
| "column_windows_loop (start # rest) =
     int_for_range start (case rest of [] \<Rightarrow> None | e # _ \<Rightarrow> Some e)
       # column_windows_loop rest"

definition column_windows :: "'r list \<Rightarrow> ('r \<Rightarrow> int) \<Rightarrow> int \<Rightarrow> whereclause list" where
  "column_windows session column windowsize =
     column_windows_loop (intervals session column windowsize)"

text \<open>
  A base query is a session together with the criteria its rows must meet.
  \<open>q.filter(whereclause).order_by(column)\<close> adds the predicate to the criteria and
  returns the matching rows in ascending order of the column (rows with the same column
  value in the order of the table).
\<close>

record 'r query =
  q_session :: "'r list"
  q_criteria :: "'r \<Rightarrow> bool"

definition filter_order_by :: "'r query \<Rightarrow> ('r \<Rightarrow> int) \<Rightarrow> whereclause \<Rightarrow> 'r list" where
  "filter_order_by q column whereclause =
     sort_key column
       (filter (\<lambda>row. q_criteria q row \<and> holds whereclause (column row)) (q_session q))"

definition windowed_query :: "'r query \<Rightarrow> ('r \<Rightarrow> int) \<Rightarrow> int \<Rightarrow> 'r list" where
  "windowed_query q column windowsize =
     concat (map (filter_order_by q column)
                 (column_windows (q_session q) column windowsize))"

text \<open>The base query executed once, unbounded, in ascending order of the column.\<close>

definition order_by :: "'r query \<Rightarrow> ('r \<Rightarrow> int) \<Rightarrow> 'r list" where
  "order_by q column = sort_key column (filter (q_criteria q) (q_session q))"

text \<open>\<open>session.query(Table)\<close>: the base query with no criteria.\<close>

definition query_all :: "'r list \<Rightarrow> 'r query" where
  "query_all session = \<lparr>q_session = session, q_criteria = (\<lambda>row. True)\<rparr>"

text \<open>The rows of the table that a predicate selects.\<close>

definition rows_in :: "whereclause \<Rightarrow> ('r \<Rightarrow> int) \<Rightarrow> 'r list \<Rightarrow> 'r list" where
  "rows_in whereclause column session =
     filter (\<lambda>row. holds whereclause (column row)) session"

subsection \<open>Foreign keys and the deletion of rows\<close>

text \<open>
  The tables of db.py are declared with foreign keys, some of them with
  \<open>ondelete='CASCADE'\<close>. The declarations are kept as they are written; the effect of
  a \<open>DELETE\<close> statement on the referencing tables is the referential action of SQL:
  with \<open>CASCADE\<close> the referencing rows are deleted as well (and their own referencing
  rows in turn), with no \<open>ondelete\<close> the statement fails if a referencing row exists.
  db.py notes of \<open>Part\<close> and \<open>Segment\<close> that they are kept to create the tables and
  are unlikely to be used through the object mapping; the deletion of a binary through
  the session is modelled as well, after the \<open>DELETE\<close> statements below.
\<close>

datatype error = IntegrityError | DataError | ProgrammingError

datatype foreign_key = ForeignKey string "string option"

fun ondelete :: "foreign_key \<Rightarrow> string option" where
  "ondelete (ForeignKey target action) = action"

definition Part_binary_id :: foreign_key where
  "Part_binary_id = ForeignKey ''binaries.id'' (Some ''CASCADE'')"

definition Segment_part_id :: foreign_key where
  "Segment_part_id = ForeignKey ''parts.id'' (Some ''CASCADE'')"

definition File_release_id :: foreign_key where
  "File_release_id = ForeignKey ''releases.id'' (Some ''CASCADE'')"

definition Release_tvshow_metablack_id :: foreign_key where
  "Release_tvshow_metablack_id = ForeignKey ''metablack.id'' (Some ''CASCADE'')"

definition Release_movie_metablack_id :: foreign_key where
  "Release_movie_metablack_id = ForeignKey ''metablack.id'' (Some ''CASCADE'')"

definition Release_rar_metablack_id :: foreign_key where
  "Release_rar_metablack_id = ForeignKey ''metablack.id'' (Some ''CASCADE'')"

definition Release_nfo_metablack_id :: foreign_key where
  "Release_nfo_metablack_id = ForeignKey ''metablack.id'' (Some ''CASCADE'')"

definition Release_sfv_metablack_id :: foreign_key where
  "Release_sfv_metablack_id = ForeignKey ''metablack.id'' (Some ''CASCADE'')"

text \<open>The rows, with their primary key, their foreign keys and one more column each.\<close>

record segment =
  segment_id :: int
  segment_message_id :: string
  segment_part_id :: "int option"

record part =
  part_id :: int
  part_subject :: string
  part_binary_id :: "int option"

record binary =
  binary_id :: int
  binary_name :: string

record file_row =
  file_id :: int
  file_name :: string
  file_release_id :: "int option"

record release =
  release_id :: int
  release_name :: string
  tvshow_metablack_id :: "int option"
  movie_metablack_id :: "int option"
  rar_metablack_id :: "int option"
  nfo_metablack_id :: "int option"
  sfv_metablack_id :: "int option"

datatype enum_metablack_status = ATTEMPTED | IMPOSSIBLE

record metablack =
  metablack_id :: int
  metablack_status :: enum_metablack_status

record db =
  binaries :: "binary list"
  parts :: "part list"
  segments :: "segment list"
  releases :: "release list"
  files :: "file_row list"
  metablacks :: "metablack list"

text \<open>A row refers to one of the keys through a nullable foreign key column.\<close>

definition refers :: "('row \<Rightarrow> int option) \<Rightarrow> int list \<Rightarrow> 'row \<Rightarrow> bool" where
  "refers column keys row = (case column row of None \<Rightarrow> False | Some k \<Rightarrow> k \<in> set keys)"

definition then_do :: "error + 'a \<Rightarrow> ('a \<Rightarrow> error + 'b) \<Rightarrow> error + 'b" where
  "then_do r f = (case r of Inl e \<Rightarrow> Inl e | Inr x \<Rightarrow> f x)"

text \<open>
  The referential action of a foreign key when rows of the referenced table are deleted:
  \<open>referencing\<close> selects the rows of the referencing table that point to them,
  \<open>delete_where\<close> is the deletion on the referencing table.
\<close>

definition referential_action ::
  "foreign_key \<Rightarrow> ('row \<Rightarrow> bool) \<Rightarrow> 'row list \<Rightarrow> (('row \<Rightarrow> bool) \<Rightarrow> db \<Rightarrow> error + db)
     \<Rightarrow> db \<Rightarrow> error + db" where
  "referential_action fk referencing rows delete_where d =
     (if ondelete fk = Some ''CASCADE'' then delete_where referencing d
      else if filter referencing rows = [] then Inr d
      else Inl IntegrityError)"

text \<open>\<open>DELETE FROM table WHERE P\<close>, for each table.\<close>

definition delete_segments :: "(segment \<Rightarrow> bool) \<Rightarrow> db \<Rightarrow> error + db" where
  "delete_segments P d = Inr (d\<lparr>segments := filter (\<lambda>row. \<not> P row) (segments d)\<rparr>)"

definition delete_parts :: "(part \<Rightarrow> bool) \<Rightarrow> db \<Rightarrow> error + db" where
  "delete_parts P d =
     (let keys = map part_id (filter P (parts d)) in
      then_do (referential_action Segment_part_id (refers segment_part_id keys) (segments d)
                 delete_segments d)
        (\<lambda>d'. Inr (d'\<lparr>parts := filter (\<lambda>row. \<not> P row) (parts d')\<rparr>)))"

definition delete_binaries :: "(binary \<Rightarrow> bool) \<Rightarrow> db \<Rightarrow> error + db" where
  "delete_binaries P d =
     (let keys = map binary_id (filter P (binaries d)) in
      then_do (referential_action Part_binary_id (refers part_binary_id keys) (parts d)
                 delete_parts d)
        (\<lambda>d'. Inr (d'\<lparr>binaries := filter (\<lambda>row. \<not> P row) (binaries d')\<rparr>)))"

definition delete_files :: "(file_row \<Rightarrow> bool) \<Rightarrow> db \<Rightarrow> error + db" where
  "delete_files P d = Inr (d\<lparr>files := filter (\<lambda>row. \<not> P row) (files d)\<rparr>)"

definition delete_releases :: "(release \<Rightarrow> bool) \<Rightarrow> db \<Rightarrow> error + db" where
  "delete_releases P d =
     (let keys = map release_id (filter P (releases d)) in
      then_do (referential_action File_release_id (refers file_release_id keys) (files d)
                 delete_files d)
        (\<lambda>d'. Inr (d'\<lparr>releases := filter (\<lambda>row. \<not> P row) (releases d')\<rparr>)))"

text \<open>
  The database without the releases that satisfy \<open>L\<close> and without the files that
  refer to them.
\<close>

definition without_releases :: "(release \<Rightarrow> bool) \<Rightarrow> db \<Rightarrow> db" where
  "without_releases L d =
     d\<lparr>files := filter (\<lambda>row. \<not> refers file_release_id
                                 (map release_id (filter L (releases d))) row) (files d),
        releases := filter (\<lambda>row. \<not> L row) (releases d)\<rparr>"

text \<open>The five foreign keys of \<open>releases\<close> to \<open>metablack.id\<close>, in the order of db.py.\<close>

definition metablack_links :: "(foreign_key \<times> (release \<Rightarrow> int option)) list" where
  "metablack_links =
     [(Release_tvshow_metablack_id, tvshow_metablack_id),
      (Release_movie_metablack_id, movie_metablack_id),
      (Release_rar_metablack_id, rar_metablack_id),
      (Release_nfo_metablack_id, nfo_metablack_id),
      (Release_sfv_metablack_id, sfv_metablack_id)]"

fun metablack_actions ::
  "(foreign_key \<times> (release \<Rightarrow> int option)) list \<Rightarrow> int list \<Rightarrow> db \<Rightarrow> error + db" where
  "metablack_actions [] keys d = Inr d"
| "metablack_actions ((fk, column) # links) keys d =
     then_do (referential_action fk (refers column keys) (releases d) delete_releases d)
       (metablack_actions links keys)"

definition delete_metablacks :: "(metablack \<Rightarrow> bool) \<Rightarrow> db \<Rightarrow> error + db" where
  "delete_metablacks P d =
     (let keys = map metablack_id (filter P (metablacks d)) in
      then_do (metablack_actions metablack_links keys d)
        (\<lambda>d'. Inr (d'\<lparr>metablacks := filter (\<lambda>row. \<not> P row) (metablacks d')\<rparr>)))"

text \<open>Deleting the row with a given primary key.\<close>

definition has_id :: "('row \<Rightarrow> int) \<Rightarrow> int \<Rightarrow> 'row \<Rightarrow> bool" where
  "has_id pk k row = (pk row = k)"

definition delete_binary :: "int \<Rightarrow> db \<Rightarrow> error + db" where
  "delete_binary k d = delete_binaries (has_id binary_id k) d"

definition delete_metablack :: "int \<Rightarrow> db \<Rightarrow> error + db" where
  "delete_metablack k d = delete_metablacks (has_id metablack_id k) d"

text \<open>
  \<open>session.delete(binary)\<close>, the deletion through the object mapping. The relationship
  \<open>Binary.parts\<close> has no delete cascade. If the parts of the binary are loaded in the
  session (\<open>Binary.size\<close> loads them), the flush first sets their \<open>binary_id\<close> to
  \<open>NULL\<close> and then deletes the binary row, so that no part refers to it any more. If
  they are not loaded, \<open>passive_deletes=True\<close> keeps the session from loading them, and
  the flush only deletes the binary row.
\<close>

definition clear_binary_id :: "int \<Rightarrow> part \<Rightarrow> part" where
  "clear_binary_id k row =
     (if part_binary_id row = Some k then row\<lparr>part_binary_id := None\<rparr> else row)"

definition session_delete_binary :: "bool \<Rightarrow> int \<Rightarrow> db \<Rightarrow> error + db" where
  "session_delete_binary parts_loaded k d =
     (if parts_loaded
      then delete_binary k (d\<lparr>parts := map (clear_binary_id k) (parts d)\<rparr>)
      else delete_binary k d)"

subsection \<open>The transaction scope \<open>db_session\<close>\<close>


datatype call = Commit | Rollback

record 'w session =
  committed :: "'w list"
  pending :: "'w list"
  calls :: "call list"





subsection \<open>The migration 54672c4d904 of the xref columns\<close>

text \<open>
  \<open>sa.String(length=256)\<close> and \<open>sa.VARCHAR(length=1024)\<close> are character types with a
  maximal length; \<open>String\<close> without a length is unbounded.
\<close>

datatype sa_type = String "nat option" | VARCHAR "nat option"

fun type_length :: "sa_type \<Rightarrow> nat option" where
  "type_length (String n) = n"
| "type_length (VARCHAR n) = n"

text \<open>
  The state of a character column in the database: its type and the values it holds.
  The database is an association list from table and column name to the column.
\<close>

record column_state =
  col_type :: sa_type
  col_values :: "string list"

type_synonym tables = "((string \<times> string) \<times> column_state) list"


text \<open>
  What the database (PostgreSQL, by \<open>sqlalchemy_url\<close>) does with a value for a column of
  a character type: a value that fits is taken as it is; a longer value whose characters
  beyond the maximal length are all spaces is cut to the maximal length, without an
  error; any other longer value is refused with the length-constraint error.
\<close>

definition excess_blank :: "nat \<Rightarrow> string \<Rightarrow> bool" where
  "excess_blank n s = list_all (\<lambda>c. c = CHR '' '') (drop n s)"

definition coerce :: "sa_type \<Rightarrow> string \<Rightarrow> error + string" where
  "coerce ty s =
     (case type_length ty of
        None \<Rightarrow> Inr s
      | Some n \<Rightarrow>
          if length s \<le> n then Inr s
          else if excess_blank n s then Inr (take n s)
          else Inl DataError)"

fun coerce_all :: "sa_type \<Rightarrow> string list \<Rightarrow> error + string list" where
  "coerce_all ty [] = Inr []"
| "coerce_all ty (v # vs) =
     then_do (coerce ty v) (\<lambda>v'. then_do (coerce_all ty vs) (\<lambda>vs'. Inr (v' # vs')))"

text \<open>
  \<open>op.alter_column(table, column, existing_type=..., type_=...)\<close> changes the type of
  the column to its argument \<open>type_\<close>; the database converts the values the column
  holds to the new type and refuses the change if one of them is refused.
\<close>

definition alter_column ::
  "string \<Rightarrow> string \<Rightarrow> sa_type \<Rightarrow> sa_type \<Rightarrow> tables \<Rightarrow> error + tables" where
  "alter_column table column existing_type new_type t =
     (case map_of t (table, column) of
        None \<Rightarrow> Inl ProgrammingError
      | Some c \<Rightarrow>
          then_do (coerce_all new_type (col_values c))
            (\<lambda>vs. Inr (AList.update (table, column)
                         (c\<lparr>col_type := new_type, col_values := vs\<rparr>) t)))"


definition downgrade :: "tables \<Rightarrow> error + tables" where
  "downgrade t =
     then_do (alter_column ''binaries'' ''xref'' (VARCHAR (Some 1024)) (String (Some 256)) t)
       (alter_column ''parts'' ''xref'' (VARCHAR (Some 1024)) (String (Some 256)))"




section \<open>The partitioner \<open>column_windows\<close>\<close>

subsection \<open>The boundaries\<close>

lemma map_fst_zip_rownum: "map fst (zip xs (map Suc [0..<length xs])) = xs"
  by (rule map_fst_zip) simp

lemma intervals_unfiltered:
  "windowsize \<le> 1 \<Longrightarrow> intervals session column windowsize = map column session"
  by (simp add: intervals_def)

lemma intervals_filtered:
  "1 < windowsize \<Longrightarrow>
     intervals session column windowsize =
       map fst (filter (\<lambda>(i, rownum). int rownum mod windowsize = 1)
                       (zip (sort (map column session))
                            (map Suc [0..<length (sort (map column session))])))"
  by (simp add: intervals_def rownum_query_def Let_def)

lemma length_column_windows_loop: "length (column_windows_loop bs) = length bs"
  by (induction bs) simp_all

text \<open>
  C10. The rank filter is applied only when \<open>windowsize > 1\<close>: for every
  \<open>windowsize \<le> 1\<close>, zero and negative values included, \<open>column_windows\<close> yields
  the windows it yields for \<open>windowsize = 1\<close>, and the boundaries are the column values
  of the rows, one boundary per row.
\<close>

theorem column_windows_le_1:
  "windowsize \<le> 1 \<Longrightarrow>
     column_windows session column windowsize = column_windows session column 1 \<and>
     mset (intervals session column windowsize) = mset (map column session) \<and>
     length (column_windows session column windowsize) = length session"
  by (simp add: column_windows_def intervals_unfiltered length_column_windows_loop)

text \<open>At \<open>windowsize = -3\<close>, on three rows.\<close>

theorem column_windows_le_1_witness:
  "(-3 :: int) \<le> 1 \<and>
   column_windows [(5 :: int, ''e''), (2, ''b''), (9, ''i'')] fst (-3) =
     column_windows [(5, ''e''), (2, ''b''), (9, ''i'')] fst 1 \<and>
   mset (intervals [(5 :: int, ''e''), (2, ''b''), (9, ''i'')] fst (-3)) = {#2, 5, 9#} \<and>
   length (column_windows [(5 :: int, ''e''), (2, ''b''), (9, ''i'')] fst (-3)) = 3"
  using column_windows_le_1 [of "-3" "[(5 :: int, ''e''), (2, ''b''), (9, ''i'')]" fst]
  by (simp add: column_windows_def intervals_def)

text \<open>
  With the rank filter the boundaries are a subsequence of the sorted column values, so
  they are sorted in whatever sense the sorted column values are.
\<close>

lemma sorted_wrt_map_fst_filter_zip:
  "sorted_wrt R xs \<Longrightarrow> sorted_wrt R (map fst (filter P (zip xs ys)))"
proof (induction xs arbitrary: ys)
  case Nil
  then show ?case by simp
next
  case (Cons x xs)
  show ?case
  proof (cases ys)
    case Nil
    then show ?thesis by simp
  next
    case (Cons y ys')
    have "\<forall>v \<in> set (map fst (filter P (zip xs ys'))). R x v"
      using Cons.prems by (auto dest: set_zip_leftD)
    then show ?thesis
      using Cons.IH [of ys'] Cons.prems Cons by simp
  qed
qed

lemma sorted_wrt_intervals:
  "1 < windowsize \<Longrightarrow> sorted_wrt R (sort (map column session)) \<Longrightarrow>
     sorted_wrt R (intervals session column windowsize)"
  by (simp add: intervals_filtered sorted_wrt_map_fst_filter_zip)

lemma sorted_intervals: "1 < windowsize \<Longrightarrow> sorted (intervals session column windowsize)"
  by (rule sorted_wrt_intervals) simp_all

lemma strict_sorted_sort:
  "distinct (map column session) \<Longrightarrow> sorted_wrt (<) (sort (map column session))"
  by (simp add: strict_sorted_iff)

text \<open>
  C3 (amended). The ranking pass ranks the rows, not the distinct values of the column:
  a value that occurs in several rows can be a boundary several times. For every table
  and every \<open>windowsize > 1\<close> the boundaries are in ascending order,
  \<open>b_i \<le> b_{i+1}\<close>; they are strictly increasing, \<open>b_i < b_{i+1}\<close>, whenever no two
  rows have the same column value.
\<close>

theorem intervals_strictly_increasing:
  "1 < windowsize \<Longrightarrow>
     sorted (intervals session column windowsize) \<and>
     (distinct (map column session) \<longrightarrow>
        sorted_wrt (<) (intervals session column windowsize))"
  by (simp add: sorted_intervals sorted_wrt_intervals strict_sorted_sort)

text \<open>On seven rows with the ids 1 to 7 and \<open>windowsize = 3\<close> the boundaries are 1, 4, 7.\<close>

theorem intervals_strictly_increasing_witness:
  "(1 :: int) < 3 \<and>
   distinct (map fst [(3 :: int, ''c''), (1, ''a''), (2, ''b''), (7, ''g''), (5, ''e''),
                      (4, ''d''), (6, ''f'')]) \<and>
   intervals [(3 :: int, ''c''), (1, ''a''), (2, ''b''), (7, ''g''), (5, ''e''),
              (4, ''d''), (6, ''f'')] fst 3 = [1, 4, 7] \<and>
   sorted_wrt (<) (intervals [(3 :: int, ''c''), (1, ''a''), (2, ''b''), (7, ''g''),
                              (5, ''e''), (4, ''d''), (6, ''f'')] fst 3)"
  using intervals_strictly_increasing
          [of 3 "[(3 :: int, ''c''), (1, ''a''), (2, ''b''), (7, ''g''), (5, ''e''),
                  (4, ''d''), (6, ''f'')]" fst]
  by (simp add: intervals_def rownum_query_def)

text \<open>
  C3 as stated fails on rows with the same column value: two such rows give the
  boundaries 1, 1 with \<open>windowsize = 1\<close>, and three give them with \<open>windowsize = 2\<close>.
\<close>

theorem intervals_not_strictly_increasing:
  "intervals [(1 :: int, ''a''), (1, ''b'')] fst 1 = [1, 1] \<and>
   \<not> sorted_wrt (<) (intervals [(1 :: int, ''a''), (1, ''b'')] fst 1) \<and>
   intervals [(1 :: int, ''a''), (1, ''b''), (1, ''c'')] fst 2 = [1, 1] \<and>
   \<not> sorted_wrt (<) (intervals [(1 :: int, ''a''), (1, ''b''), (1, ''c'')] fst 2)"
  by (simp add: intervals_def rownum_query_def)

subsection \<open>The number of windows\<close>

text \<open>
  C5 (amended). With \<open>windowsize = 1\<close> the number of windows equals the number of
  rows of the table; it equals the number of distinct values of the ordering column
  whenever no two rows have the same column value.
\<close>

theorem length_column_windows_1:
  "length (column_windows session column 1) = length session \<and>
   (distinct (map column session) \<longrightarrow>
      length (column_windows session column 1) = card (column ` set session))"
proof -
  have "length (column_windows session column 1) = length session"
    by (simp add: column_windows_def length_column_windows_loop intervals_unfiltered)
  moreover have "card (column ` set session) = length session"
    if "distinct (map column session)"
    using distinct_card [OF that] by simp
  ultimately show ?thesis by simp
qed

theorem length_column_windows_1_witness:
  "distinct (map fst [(5 :: int, ''e''), (2, ''b''), (9, ''i'')]) \<and>
   length (column_windows [(5 :: int, ''e''), (2, ''b''), (9, ''i'')] fst 1) = 3 \<and>
   card (fst ` set [(5 :: int, ''e''), (2, ''b''), (9, ''i'')]) = 3"
  using length_column_windows_1 [of "[(5 :: int, ''e''), (2, ''b''), (9, ''i'')]" fst]
  by simp

text \<open>
  C5 as stated fails on two rows with the same column value: two windows, one distinct
  value.
\<close>

theorem length_column_windows_1_duplicates:
  "[(1 :: int, ''a''), (1, ''b'')] \<noteq> [] \<and>
   column_windows [(1 :: int, ''a''), (1, ''b'')] fst 1 = [And_ge_lt 1 1, Ge 1] \<and>
   length (column_windows [(1 :: int, ''a''), (1, ''b'')] fst 1) = 2 \<and>
   card (fst ` set [(1 :: int, ''a''), (1, ''b'')]) = 1"
  by (simp add: column_windows_def intervals_def rownum_query_def int_for_range_def)

subsection \<open>The size of the windows\<close>

text \<open>
  The boundary of index \<open>k\<close> is the sorted column value of index \<open>k * windowsize\<close>.
\<close>

lemma zip_rownum_nth:
  "zip xs (map Suc [0..<length xs]) = map (\<lambda>j. (xs ! j, Suc j)) [0..<length xs]"
  by (rule nth_equalityI) simp_all

lemma rank_mod_iff:
  assumes "1 < w"
  shows "int (Suc j) mod w = 1 \<longleftrightarrow> nat w dvd j"
proof -
  define m where "m = nat w"
  have m: "1 < m" and w: "w = int m" using assms by (simp_all add: m_def)
  have "int (Suc j) mod w = int (Suc j mod m)"
    by (simp only: w zmod_int)
  then have "int (Suc j) mod w = 1 \<longleftrightarrow> Suc j mod m = 1"
    by (metis of_nat_1 of_nat_eq_iff)
  also have "\<dots> \<longleftrightarrow> j mod m = 0"
    using m by (auto simp: mod_Suc)
  finally show ?thesis by (simp add: m_def dvd_eq_mod_eq_0)
qed

lemma ceil_div_dvd:
  fixes m :: nat
  assumes "0 < m" "m dvd n"
  shows "(n + m - Suc 0) div m = n div m"
proof -
  obtain q where n: "n = m * q" using assms(2) by (elim dvdE)
  have "n + m - 1 = m * q + (m - 1)" using assms(1) n by simp
  then have "(n + m - 1) div m = q + (m - 1) div m"
    using assms(1) by (simp only: div_mult_self4)
  then show ?thesis using assms(1) n by simp
qed

lemma ceil_div_not_dvd:
  fixes m :: nat
  assumes "0 < m" "\<not> m dvd n"
  shows "(n + m - Suc 0) div m = Suc (n div m)"
proof -
  define q r where "q = n div m" and "r = n mod m"
  have n: "n = m * q + r" by (simp add: q_def r_def)
  have r: "0 < r" "r < m" using assms by (auto simp: r_def dvd_eq_mod_eq_0)
  have "n + m - 1 = m * Suc q + (r - 1)" using r n by simp
  then have "(n + m - 1) div m = Suc q + (r - 1) div m"
    using assms(1) by (simp only: div_mult_self4) 
  then show ?thesis using r by (simp add: q_def)
qed

lemma filter_dvd_upt:
  fixes m :: nat
  assumes "0 < m"
  shows "filter (\<lambda>j. m dvd j) [0..<n] = map (\<lambda>k. k * m) [0..<(n + m - 1) div m]"
proof (induction n)
  case 0
  then show ?case using assms by simp
next
  case (Suc n)
  have new: "(Suc n + m - 1) div m = Suc (n div m)"
    using assms div_add_self2 [of m n] by simp
  show ?case
  proof (cases "m dvd n")
    case True
    then show ?thesis
      using Suc new assms by (simp add: ceil_div_dvd)
  next
    case False
    then show ?thesis
      using Suc new assms by (simp add: ceil_div_not_dvd)
  qed
qed

lemma intervals_nth_form:
  assumes w: "1 < windowsize"
  shows "intervals session column windowsize =
           map (\<lambda>k. sort (map column session) ! (k * nat windowsize))
               [0..<(length session + nat windowsize - 1) div nat windowsize]"
proof -
  define xs where "xs = sort (map column session)"
  have len: "length xs = length session" by (simp add: xs_def)
  have "intervals session column windowsize =
          map fst (filter (\<lambda>(i, rownum). int rownum mod windowsize = 1)
                          (map (\<lambda>j. (xs ! j, Suc j)) [0..<length xs]))"
    unfolding intervals_filtered [OF w] xs_def [symmetric] by (simp only: zip_rownum_nth)
  also have "\<dots> = map (\<lambda>j. xs ! j) (filter (\<lambda>j. int (Suc j) mod windowsize = 1) [0..<length xs])"
    by (simp add: filter_map comp_def)
  also have "\<dots> = map (\<lambda>j. xs ! j) (filter (\<lambda>j. nat windowsize dvd j) [0..<length xs])"
    by (simp only: rank_mod_iff [OF w])
  also have "\<dots> = map (\<lambda>k. xs ! (k * nat windowsize))
                        [0..<(length xs + nat windowsize - 1) div nat windowsize]"
    using w by (simp add: filter_dvd_upt comp_def)
  finally show ?thesis by (simp add: xs_def)
qed

lemma length_intervals:
  "1 < windowsize \<Longrightarrow>
     length (intervals session column windowsize) =
       (length session + nat windowsize - 1) div nat windowsize"
  by (simp add: intervals_nth_form)

lemma rank_index_in_range:
  fixes m :: nat
  assumes "0 < m" "i < (n + m - 1) div m"
  shows "i * m < n"
proof -
  have "map (\<lambda>k. k * m) [0..<(n + m - 1) div m] ! i \<in> set (filter (\<lambda>j. m dvd j) [0..<n])"
    using assms by (simp only: filter_dvd_upt [OF assms(1), symmetric] flip: length_map)
      (metis assms(1) filter_dvd_upt length_map length_upt minus_nat.diff_0 nth_mem assms(2))
  then show ?thesis using assms by simp
qed

lemma nth_intervals:
  assumes "1 < windowsize" "i < length (intervals session column windowsize)"
  shows "intervals session column windowsize ! i =
           sort (map column session) ! (i * nat windowsize) \<and>
         i * nat windowsize < length session"
proof -
  have i: "i < (length session + nat windowsize - 1) div nat windowsize"
    using assms by (simp add: length_intervals)
  have "i * nat windowsize < length session"
    using assms(1) i by (intro rank_index_in_range) simp_all
  moreover have "intervals session column windowsize ! i =
           sort (map column session) ! (i * nat windowsize)"
    using i by (simp add: intervals_nth_form [OF assms(1)])
  ultimately show ?thesis by simp
qed

lemma sort_column_nonempty:
  "session \<noteq> [] \<Longrightarrow> sort (map column session) \<noteq> []"
proof
  assume ne: "session \<noteq> []" and e: "sort (map column session) = []"
  have "length (sort (map column session)) = length session" by simp
  then show False using ne by (simp add: e)
qed

lemma intervals_nonempty:
  assumes "session \<noteq> []"
  shows "intervals session column windowsize \<noteq> []"
proof (cases "windowsize \<le> 1")
  case True
  then show ?thesis using assms by (simp add: intervals_unfiltered)
next
  case False
  then have w: "1 < windowsize" "0 < nat windowsize" by simp_all
  have "nat windowsize \<le> length session + nat windowsize - 1"
    using assms by (cases session) simp_all
  then have "0 < (length session + nat windowsize - 1) div nat windowsize"
    using w(2) by (simp add: div_greater_zero_iff)
  then show ?thesis
    using length_intervals [OF w(1), of session column] by auto
qed

lemma hd_intervals:
  assumes "session \<noteq> []" and w: "1 < windowsize"
  shows "hd (intervals session column windowsize) = hd (sort (map column session))"
proof -
  have ne: "intervals session column windowsize \<noteq> []"
    using assms(1) by (rule intervals_nonempty)
  then have "hd (intervals session column windowsize) = intervals session column windowsize ! 0"
    by (simp add: hd_conv_nth)
  also have "\<dots> = sort (map column session) ! 0"
    using nth_intervals [OF w, of 0 session column] ne by simp
  also have "\<dots> = hd (sort (map column session))"
    using assms(1) by (simp add: hd_conv_nth sort_column_nonempty)
  finally show ?thesis .
qed

text \<open>Counting the values of a strictly increasing list between two of its elements.\<close>

lemma strict_sorted_nth_le_iff:
  fixes xs :: "'a::linorder list"
  assumes "sorted_wrt (<) xs" "i < length xs" "j < length xs"
  shows "xs ! i \<le> xs ! j \<longleftrightarrow> i \<le> j"
proof
  assume "i \<le> j"
  then show "xs ! i \<le> xs ! j"
    using assms sorted_wrt_nth_less [of "(<)" xs i j] by (cases "i = j") auto
next
  assume le: "xs ! i \<le> xs ! j"
  show "i \<le> j"
  proof (rule ccontr)
    assume "\<not> i \<le> j"
    then have "xs ! j < xs ! i"
      using assms sorted_wrt_nth_less [of "(<)" xs j i] by simp
    with le show False by simp
  qed
qed

lemma strict_sorted_nth_less_iff:
  fixes xs :: "'a::linorder list"
  assumes "sorted_wrt (<) xs" "i < length xs" "j < length xs"
  shows "xs ! i < xs ! j \<longleftrightarrow> i < j"
  using strict_sorted_nth_le_iff [OF assms(1) assms(3) assms(2)] by auto

lemma count_between_strict_sorted:
  fixes xs :: "int list"
  assumes "sorted_wrt (<) xs" "a \<le> b" "b < length xs"
  shows "length (filter (\<lambda>v. xs ! a \<le> v \<and> v < xs ! b) xs) = b - a"
proof -
  have "{i. i < length xs \<and> xs ! a \<le> xs ! i \<and> xs ! i < xs ! b} = {a..<b}"
    using assms strict_sorted_nth_le_iff [OF assms(1)] strict_sorted_nth_less_iff [OF assms(1)]
    by auto
  then show ?thesis
    by (simp add: length_filter_conv_card)
qed

lemma length_filter_sort:
  "length (filter P (sort xs)) = length (filter P xs)"
proof -
  have "mset (filter P (sort xs)) = mset (filter P xs)"
    by (simp add: mset_filter)
  then show ?thesis by (metis size_mset)
qed

lemma count_rows_in:
  "length (rows_in (And_ge_lt lo hi) column session) =
   length (filter (\<lambda>v. lo \<le> v \<and> v < hi) (sort (map column session)))"
  by (simp add: rows_in_def length_filter_sort length_filter_map comp_def)

lemma last_column_windows_loop:
  "bs \<noteq> [] \<Longrightarrow> last (column_windows_loop bs) = Ge (last bs)"
proof (induction bs)
  case Nil
  then show ?case by simp
next
  case (Cons b bs)
  then show ?case
    by (cases bs) (simp_all add: int_for_range_def)
qed

text \<open>
  C2 (amended). For every table in which no two rows have the same column value and
  every \<open>windowsize > 1\<close>, each interval \<open>[b_i, b_{i+1})\<close> between consecutive
  boundaries contains at most \<open>windowsize\<close> rows of the table, and the last window
  yielded, if the table is not empty, is \<open>column >= b_n\<close>, unbounded above.
\<close>

theorem intervals_at_most_windowsize:
  assumes "distinct (map column session)" and "1 < windowsize"
  shows "(\<forall>i. Suc i < length (intervals session column windowsize) \<longrightarrow>
            int (length (rows_in (And_ge_lt (intervals session column windowsize ! i)
                                           (intervals session column windowsize ! Suc i))
                                 column session)) \<le> windowsize) \<and>
         (session \<noteq> [] \<longrightarrow>
            column_windows session column windowsize \<noteq> [] \<and>
            last (column_windows session column windowsize) =
              Ge (last (intervals session column windowsize)))"
proof (intro conjI allI impI)
  fix i
  assume i: "Suc i < length (intervals session column windowsize)"
  define xs where "xs = sort (map column session)"
  define m where "m = nat windowsize"
  have w: "1 < windowsize" using assms(2) by simp
  have strict: "sorted_wrt (<) xs"
    unfolding xs_def using assms(1) by (rule strict_sorted_sort)
  have lo: "intervals session column windowsize ! i = xs ! (i * m)"
    using nth_intervals [OF w, of i session column] i by (simp add: xs_def m_def)
  have hi: "intervals session column windowsize ! Suc i = xs ! (Suc i * m)"
    and b: "Suc i * m < length xs"
    using nth_intervals [OF w i] by (simp_all add: xs_def m_def)
  have "length (rows_in (And_ge_lt (xs ! (i * m)) (xs ! (Suc i * m))) column session)
          = Suc i * m - i * m"
    unfolding count_rows_in xs_def [symmetric]
    using strict _ b by (rule count_between_strict_sorted) simp
  then show "int (length (rows_in (And_ge_lt (intervals session column windowsize ! i)
                                           (intervals session column windowsize ! Suc i))
                                 column session)) \<le> windowsize"
    using assms(2) by (simp add: lo hi m_def)
next
  assume "session \<noteq> []"
  then show "column_windows session column windowsize \<noteq> []"
    using intervals_nonempty [of session column windowsize]
          length_column_windows_loop [of "intervals session column windowsize"]
    by (auto simp: column_windows_def)
next
  assume "session \<noteq> []"
  then show "last (column_windows session column windowsize) =
              Ge (last (intervals session column windowsize))"
    by (simp add: column_windows_def last_column_windows_loop intervals_nonempty)
qed

theorem intervals_at_most_windowsize_witness:
  "distinct (map fst [(3 :: int, ''c''), (1, ''a''), (2, ''b''), (7, ''g''), (5, ''e''),
                      (4, ''d''), (6, ''f'')]) \<and> (1 :: int) < 3 \<and>
   intervals [(3 :: int, ''c''), (1, ''a''), (2, ''b''), (7, ''g''), (5, ''e''),
              (4, ''d''), (6, ''f'')] fst 3 = [1, 4, 7] \<and>
   int (length (rows_in (And_ge_lt 4 7) fst
                  [(3 :: int, ''c''), (1, ''a''), (2, ''b''), (7, ''g''), (5, ''e''),
                   (4, ''d''), (6, ''f'')])) \<le> 3 \<and>
   last (column_windows [(3 :: int, ''c''), (1, ''a''), (2, ''b''), (7, ''g''), (5, ''e''),
                         (4, ''d''), (6, ''f'')] fst 3) = Ge 7"
proof -
  let ?t = "[(3 :: int, ''c''), (1, ''a''), (2, ''b''), (7, ''g''), (5, ''e''),
             (4, ''d''), (6, ''f'')]"
  have d: "distinct (map fst ?t)" by simp
  have w: "(1 :: int) < 3" by simp
  have i: "intervals ?t fst 3 = [1, 4, 7]"
    by (simp add: intervals_def rownum_query_def)
  note th = intervals_at_most_windowsize [OF d w]
  have "Suc 1 < length (intervals ?t fst 3) \<longrightarrow>
        int (length (rows_in (And_ge_lt (intervals ?t fst 3 ! 1) (intervals ?t fst 3 ! Suc 1))
                       fst ?t)) \<le> 3"
    using th by blast
  then have "int (length (rows_in (And_ge_lt 4 7) fst ?t)) \<le> 3"
    by (simp add: i)
  moreover have "last (column_windows ?t fst 3) = Ge (last (intervals ?t fst 3))"
    using th by simp
  ultimately show ?thesis using d i by simp
qed

text \<open>
  C2 as stated fails on a table with a repeated column value: with \<open>windowsize = 1\<close>
  the boundaries are 1, 2, 2, 3, and the interval \<open>[2, 3)\<close> between the third and the
  fourth contains two rows; with \<open>windowsize = 2\<close> and the column values
  1, 2, 2, 2, 3, 4 the boundaries are 1, 2, 3, and the interval \<open>[2, 3)\<close> contains three
  rows.
\<close>

theorem intervals_more_than_windowsize:
  "(0 :: int) < 1 \<and>
   intervals [(1 :: int, ''a''), (2, ''b''), (2, ''c''), (3, ''d'')] fst 1 = [1, 2, 2, 3] \<and>
   length (rows_in (And_ge_lt 2 3) fst
             [(1 :: int, ''a''), (2, ''b''), (2, ''c''), (3, ''d'')]) = 2 \<and>
   (0 :: int) < 2 \<and>
   intervals [(1 :: int, ''a''), (2, ''b''), (2, ''c''), (2, ''d''), (3, ''e''), (4, ''f'')]
     fst 2 = [1, 2, 3] \<and>
   length (rows_in (And_ge_lt 2 3) fst
             [(1 :: int, ''a''), (2, ''b''), (2, ''c''), (2, ''d''), (3, ''e''), (4, ''f'')])
     = 3"
  by (simp add: intervals_def rownum_query_def rows_in_def)

section \<open>The windowed iterator \<open>windowed_query\<close>\<close>

text \<open>
  Each window is fetched in ascending order of the column; the windows of an ascending
  list of boundaries none of which, after the first, is 0 cover the rows from the first
  boundary on, each row once, in ascending order.
\<close>

lemma mset_filter_split:
  fixes f :: "'r \<Rightarrow> int"
  assumes "b \<le> e"
  shows "mset (filter (\<lambda>r. C r \<and> b \<le> f r \<and> f r < e) xs) + mset (filter (\<lambda>r. C r \<and> e \<le> f r) xs)
           = mset (filter (\<lambda>r. C r \<and> b \<le> f r) xs)"
  using assms by (induction xs) auto

lemma mset_filter_order_by:
  "mset (filter_order_by q column whereclause) =
   mset (filter (\<lambda>row. q_criteria q row \<and> holds whereclause (column row)) (q_session q))"
  by (simp add: filter_order_by_def)

lemma mset_windows_loop:
  assumes "sorted bs" "0 \<notin> set (tl bs)" "bs \<noteq> []"
  shows "mset (concat (map (filter_order_by q column) (column_windows_loop bs))) =
         mset (filter (\<lambda>row. q_criteria q row \<and> hd bs \<le> column row) (q_session q))"
  using assms
proof (induction bs)
  case Nil
  then show ?case by simp
next
  case (Cons b rest)
  show ?case
  proof (cases rest)
    case Nil
    then show ?thesis
      by (simp add: int_for_range_def mset_filter_order_by)
  next
    case (Cons e rest')
    have e: "e \<noteq> 0" "b \<le> e" using Cons.prems Cons by auto
    have "sorted rest" "0 \<notin> set (tl rest)" "rest \<noteq> []"
      using Cons.prems Cons by auto
    then have IH: "mset (concat (map (filter_order_by q column) (column_windows_loop rest))) =
         mset (filter (\<lambda>row. q_criteria q row \<and> e \<le> column row) (q_session q))"
      using Cons.IH Cons by simp
    have "mset (concat (map (filter_order_by q column) (column_windows_loop (b # rest)))) =
          mset (filter_order_by q column (And_ge_lt b e)) +
          mset (concat (map (filter_order_by q column) (column_windows_loop rest)))"
      using e(1) Cons by (simp add: int_for_range_def)
    also have "\<dots> = mset (filter (\<lambda>row. q_criteria q row \<and> b \<le> column row) (q_session q))"
      unfolding IH mset_filter_order_by using mset_filter_split [OF e(2)] by simp
    finally show ?thesis by simp
  qed
qed

lemma hd_sort_le:
  assumes "row \<in> set session"
  shows "hd (sort (map column session)) \<le> column row"
proof -
  have ne: "sort (map column session) \<noteq> []"
    using assms by (intro sort_column_nonempty) auto
  have "column row \<in> set (sort (map column session))" using assms by simp
  moreover have "sorted (sort (map column session))" by simp
  ultimately show ?thesis
    using ne by (cases "sort (map column session)") auto
qed

text \<open>
  With \<open>windowsize > 1\<close> the boundaries are in ascending order: when none of them,
  after the first, is 0, the iterator yields the rows of the unbounded query, each as
  often, and in ascending order of the column.
\<close>

lemma windowed_query_mset:
  assumes w: "1 < windowsize"
    and "0 \<notin> set (tl (intervals (q_session q) column windowsize))"
  shows "mset (windowed_query q column windowsize) = mset (order_by q column)"
proof (cases "q_session q = []")
  case True
  then show ?thesis
    by (simp add: windowed_query_def order_by_def column_windows_def intervals_def
          rownum_query_def)
next
  case False
  let ?bs = "intervals (q_session q) column windowsize"
  have "mset (windowed_query q column windowsize) =
        mset (filter (\<lambda>row. q_criteria q row \<and> hd ?bs \<le> column row) (q_session q))"
    unfolding windowed_query_def column_windows_def
    using sorted_intervals [OF w] assms(2) intervals_nonempty [OF False]
    by (rule mset_windows_loop)
  also have "\<dots> = mset (filter (q_criteria q) (q_session q))"
    using hd_sort_le [of _ "q_session q" column]
    by (simp add: hd_intervals [OF False w] cong: filter_cong)
  finally show ?thesis by (simp add: order_by_def)
qed

lemma sorted_windows_loop:
  assumes "sorted bs" "0 \<notin> set (tl bs)"
  shows "sorted (map column (concat (map (filter_order_by q column) (column_windows_loop bs))))"
  using assms
proof (induction bs)
  case Nil
  then show ?case by simp
next
  case (Cons b rest)
  show ?case
  proof (cases rest)
    case Nil
    then show ?thesis
      by (simp add: int_for_range_def filter_order_by_def)
  next
    case (Cons e rest')
    have e: "e \<noteq> 0" using Cons.prems Cons by auto
    have rest: "sorted rest" "0 \<notin> set (tl rest)" "rest \<noteq> []"
      using Cons.prems Cons by auto
    have later: "e \<le> column row"
      if "row \<in> set (concat (map (filter_order_by q column) (column_windows_loop rest)))" for row
    proof -
      have "row \<in># mset (concat (map (filter_order_by q column) (column_windows_loop rest)))"
        using that by simp
      then show ?thesis
        unfolding mset_windows_loop [OF rest] using Cons by simp
    qed
    have first: "column row < e" if "row \<in> set (filter_order_by q column (And_ge_lt b e))" for row
      using that by (simp add: filter_order_by_def)
    have "sorted (map column (filter_order_by q column (And_ge_lt b e)))"
      by (simp add: filter_order_by_def)
    moreover have "sorted (map column (concat (map (filter_order_by q column) (column_windows_loop rest))))"
      using Cons.IH rest by simp
    ultimately show ?thesis
      using e Cons first later
      by (fastforce simp: int_for_range_def sorted_append)
  qed
qed

lemma windowed_query_sorted:
  assumes w: "1 < windowsize"
    and "0 \<notin> set (tl (intervals (q_session q) column windowsize))"
  shows "sorted (map column (windowed_query q column windowsize))"
  unfolding windowed_query_def column_windows_def
  using sorted_intervals [OF w] assms(2) by (rule sorted_windows_loop)

text \<open>
  C1. The multiset of rows yielded by \<open>windowed_query\<close> should equal that of the base
  query executed once. \<open>int_for_range\<close> tests the upper boundary with \<open>if end_id:\<close>,
  which is false for the boundary 0 as it is for \<open>None\<close>: the window below a boundary 0
  is yielded without its upper bound. On four rows with the column values -2, -1, 0, 1
  and \<open>windowsize = 2\<close> the boundaries are -2 and 0, both windows are unbounded above,
  and the rows with the values 0 and 1 are yielded twice.
\<close>

theorem windowed_query_zero_boundary_repeats_rows:
  "column_windows [(-2 :: int, ''a''), (-1, ''b''), (0, ''c''), (1, ''d'')] fst 2 =
     [Ge (-2), Ge 0] \<and>
   windowed_query (query_all [(-2 :: int, ''a''), (-1, ''b''), (0, ''c''), (1, ''d'')]) fst 2 =
     [(-2, ''a''), (-1, ''b''), (0, ''c''), (1, ''d''), (0, ''c''), (1, ''d'')] \<and>
   order_by (query_all [(-2 :: int, ''a''), (-1, ''b''), (0, ''c''), (1, ''d'')]) fst =
     [(-2, ''a''), (-1, ''b''), (0, ''c''), (1, ''d'')] \<and>
   mset (windowed_query (query_all [(-2 :: int, ''a''), (-1, ''b''), (0, ''c''), (1, ''d'')])
           fst 2) \<noteq>
   mset (order_by (query_all [(-2 :: int, ''a''), (-1, ''b''), (0, ''c''), (1, ''d'')]) fst)"
  by (simp add: windowed_query_def column_windows_def intervals_def rownum_query_def
        int_for_range_def filter_order_by_def order_by_def query_all_def)

text \<open>
  C4. The rows yielded by \<open>windowed_query\<close> should be in ascending order of the column
  across windows. By the same test of the upper boundary, on four rows with the column
  values -2, -1, 0, 1 and \<open>windowsize = 2\<close> the first window is yielded as
  \<open>column >= -2\<close>, and the rows come in the order -2, -1, 0, 1, 0, 1.
\<close>

theorem windowed_query_zero_boundary_out_of_order:
  "column_windows [(-2 :: int, ''a''), (-1, ''b''), (0, ''c''), (1, ''d'')] fst 2 =
     [Ge (-2), Ge 0] \<and>
   map fst (windowed_query
              (query_all [(-2 :: int, ''a''), (-1, ''b''), (0, ''c''), (1, ''d'')]) fst 2) =
     [-2, -1, 0, 1, 0, 1] \<and>
   \<not> sorted (map fst (windowed_query
                        (query_all [(-2 :: int, ''a''), (-1, ''b''), (0, ''c''), (1, ''d'')])
                        fst 2))"
  by (simp add: windowed_query_def column_windows_def intervals_def rownum_query_def
        int_for_range_def filter_order_by_def query_all_def)

text \<open>
  With \<open>windowsize \<le> 1\<close> the boundaries come in the order of the table. On four rows
  stored with the column values 2, 4, 1, 3 and \<open>windowsize = 1\<close> the windows are
  \<open>[2, 4)\<close>, \<open>[4, 1)\<close>, \<open>[1, 3)\<close> and \<open>column >= 3\<close>, and the iterator yields six
  rows.
\<close>

lemma windowed_query_boundaries_in_table_order:
  "column_windows [(2 :: int, ''b''), (4, ''d''), (1, ''a''), (3, ''c'')] fst 1 =
     [And_ge_lt 2 4, And_ge_lt 4 1, And_ge_lt 1 3, Ge 3] \<and>
   map fst (windowed_query
              (query_all [(2 :: int, ''b''), (4, ''d''), (1, ''a''), (3, ''c'')]) fst 1) =
     [2, 3, 1, 2, 3, 4]"
  by (simp add: windowed_query_def column_windows_def intervals_def
        int_for_range_def filter_order_by_def query_all_def)

section \<open>Deleting rows\<close>

subsection \<open>Binaries and their parts\<close>

lemma delete_parts_result:
  "delete_parts P d =
     Inr (d\<lparr>segments := filter (\<lambda>row. \<not> refers segment_part_id (map part_id (filter P (parts d))) row)
                             (segments d),
            parts := filter (\<lambda>row. \<not> P row) (parts d)\<rparr>)"
  by (simp add: delete_parts_def Let_def referential_action_def Segment_part_id_def
        delete_segments_def then_do_def)

lemma delete_binaries_result:
  "delete_binaries P d =
     Inr (d\<lparr>segments :=
              filter (\<lambda>row. \<not> refers segment_part_id
                 (map part_id (filter (refers part_binary_id (map binary_id (filter P (binaries d))))
                                      (parts d))) row)
                (segments d),
            parts := filter (\<lambda>row. \<not> refers part_binary_id (map binary_id (filter P (binaries d))) row)
                       (parts d),
            binaries := filter (\<lambda>row. \<not> P row) (binaries d)\<rparr>)"
  by (simp add: delete_binaries_def Let_def referential_action_def Part_binary_id_def
        delete_parts_result then_do_def)

lemma delete_releases_result:
  "delete_releases P d =
     Inr (d\<lparr>files := filter (\<lambda>row. \<not> refers file_release_id (map release_id (filter P (releases d))) row)
                          (files d),
            releases := filter (\<lambda>row. \<not> P row) (releases d)\<rparr>)"
  by (simp add: delete_releases_def Let_def referential_action_def File_release_id_def
        delete_files_def then_do_def)

lemma keys_has_id:
  "k \<in> set (map pk rows) \<Longrightarrow> set (map pk (filter (has_id pk k) rows)) = {k}"
  by (auto simp: has_id_def)

lemma refers_single:
  "set keys = {k} \<Longrightarrow> refers column keys row \<longleftrightarrow> column row = Some k"
  by (auto simp: refers_def split: option.splits)

lemma delete_binary_result:
  assumes "k \<in> set (map binary_id (binaries d))"
  shows "delete_binary k d =
           Inr (d\<lparr>segments :=
                    filter (\<lambda>row. \<not> refers segment_part_id
                               (map part_id (filter (\<lambda>row. part_binary_id row = Some k)
                                                    (parts d))) row)
                      (segments d),
                  parts := filter (\<lambda>row. part_binary_id row \<noteq> Some k) (parts d),
                  binaries := filter (\<lambda>row. binary_id row \<noteq> k) (binaries d)\<rparr>)"
proof -
  have keys: "set (map binary_id (filter (has_id binary_id k) (binaries d))) = {k}"
    using assms by (rule keys_has_id)
  have r: "refers part_binary_id (map binary_id (filter (has_id binary_id k) (binaries d)))
             = (\<lambda>row. part_binary_id row = Some k)"
    using refers_single [OF keys] by (intro ext)
  show ?thesis
    by (simp add: delete_binary_def delete_binaries_result r) (simp add: has_id_def)
qed

lemma no_part_refers_after_clear:
  "filter (\<lambda>row. part_binary_id row = Some k) (map (clear_binary_id k) ps) = []"
  by (induction ps) (simp_all add: clear_binary_id_def)

lemma parts_kept_after_clear:
  "filter (\<lambda>row. part_binary_id row \<noteq> Some k) (map (clear_binary_id k) ps) =
     map (clear_binary_id k) ps"
  by (induction ps) (simp_all add: clear_binary_id_def)

lemma refers_no_keys: "\<not> refers column [] row"
  by (simp add: refers_def split: option.splits)

text \<open>
  C6 (amended). \<open>Part.binary_id\<close> is declared with \<open>ondelete='CASCADE'\<close>, and so is
  \<open>Segment.part_id\<close>: deleting a Binary row with a \<open>DELETE\<close> statement, or through the
  session while its parts are not loaded, deletes every Part row that referenced it, and
  the Segments of those Parts. Deleting it through the session while its parts are loaded
  sets the \<open>binary_id\<close> of those Parts to \<open>NULL\<close> and keeps them and their Segments. In
  each case every other Part row remains present and unchanged.
\<close>

theorem delete_binary_deletes_its_parts:
  assumes "k \<in> set (map binary_id (binaries d))"
  shows "(\<exists>d'. delete_binary k d = Inr d' \<and> session_delete_binary False k d = Inr d' \<and>
            binaries d' = filter (\<lambda>row. binary_id row \<noteq> k) (binaries d) \<and>
            parts d' = filter (\<lambda>row. part_binary_id row \<noteq> Some k) (parts d) \<and>
            segments d' =
              filter (\<lambda>row. \<not> refers segment_part_id
                         (map part_id (filter (\<lambda>row. part_binary_id row = Some k) (parts d))) row)
                (segments d)) \<and>
         (\<exists>d'. session_delete_binary True k d = Inr d' \<and>
            binaries d' = filter (\<lambda>row. binary_id row \<noteq> k) (binaries d) \<and>
            parts d' = map (clear_binary_id k) (parts d) \<and>
            segments d' = segments d)"
proof
  show "\<exists>d'. delete_binary k d = Inr d' \<and> session_delete_binary False k d = Inr d' \<and>
            binaries d' = filter (\<lambda>row. binary_id row \<noteq> k) (binaries d) \<and>
            parts d' = filter (\<lambda>row. part_binary_id row \<noteq> Some k) (parts d) \<and>
            segments d' =
              filter (\<lambda>row. \<not> refers segment_part_id
                         (map part_id (filter (\<lambda>row. part_binary_id row = Some k) (parts d))) row)
                (segments d)"
    by (simp add: session_delete_binary_def delete_binary_result [OF assms])
next
  let ?d = "d\<lparr>parts := map (clear_binary_id k) (parts d)\<rparr>"
  have "k \<in> set (map binary_id (binaries ?d))" using assms by simp
  then show "\<exists>d'. session_delete_binary True k d = Inr d' \<and>
            binaries d' = filter (\<lambda>row. binary_id row \<noteq> k) (binaries d) \<and>
            parts d' = map (clear_binary_id k) (parts d) \<and>
            segments d' = segments d"
    by (simp add: session_delete_binary_def delete_binary_result
          no_part_refers_after_clear parts_kept_after_clear refers_no_keys)
qed

text \<open>
  Two binaries, a part of each and a part of none: the \<open>DELETE\<close> of the first binary
  deletes its part and the segment of that part, and nothing else; its deletion through
  the session with the parts loaded keeps all parts and segments and clears the
  \<open>binary_id\<close> of its part.
\<close>

theorem delete_binary_deletes_its_parts_witness:
  "1 \<in> set (map binary_id (binaries
     \<lparr>binaries = [\<lparr>binary_id = 1, binary_name = ''a''\<rparr>, \<lparr>binary_id = 2, binary_name = ''b''\<rparr>],
      parts = [\<lparr>part_id = 10, part_subject = ''a 1'', part_binary_id = Some 1\<rparr>,
               \<lparr>part_id = 11, part_subject = ''b 1'', part_binary_id = Some 2\<rparr>,
               \<lparr>part_id = 12, part_subject = ''c 1'', part_binary_id = None\<rparr>],
      segments = [\<lparr>segment_id = 100, segment_message_id = ''m1'', segment_part_id = Some 10\<rparr>,
                  \<lparr>segment_id = 101, segment_message_id = ''m2'', segment_part_id = Some 11\<rparr>],
      releases = [], files = [], metablacks = []\<rparr>)) \<and>
   delete_binary 1
     \<lparr>binaries = [\<lparr>binary_id = 1, binary_name = ''a''\<rparr>, \<lparr>binary_id = 2, binary_name = ''b''\<rparr>],
      parts = [\<lparr>part_id = 10, part_subject = ''a 1'', part_binary_id = Some 1\<rparr>,
               \<lparr>part_id = 11, part_subject = ''b 1'', part_binary_id = Some 2\<rparr>,
               \<lparr>part_id = 12, part_subject = ''c 1'', part_binary_id = None\<rparr>],
      segments = [\<lparr>segment_id = 100, segment_message_id = ''m1'', segment_part_id = Some 10\<rparr>,
                  \<lparr>segment_id = 101, segment_message_id = ''m2'', segment_part_id = Some 11\<rparr>],
      releases = [], files = [], metablacks = []\<rparr> =
   Inr \<lparr>binaries = [\<lparr>binary_id = 2, binary_name = ''b''\<rparr>],
        parts = [\<lparr>part_id = 11, part_subject = ''b 1'', part_binary_id = Some 2\<rparr>,
                 \<lparr>part_id = 12, part_subject = ''c 1'', part_binary_id = None\<rparr>],
        segments = [\<lparr>segment_id = 101, segment_message_id = ''m2'', segment_part_id = Some 11\<rparr>],
        releases = [], files = [], metablacks = []\<rparr> \<and>
   session_delete_binary True 1
     \<lparr>binaries = [\<lparr>binary_id = 1, binary_name = ''a''\<rparr>, \<lparr>binary_id = 2, binary_name = ''b''\<rparr>],
      parts = [\<lparr>part_id = 10, part_subject = ''a 1'', part_binary_id = Some 1\<rparr>,
               \<lparr>part_id = 11, part_subject = ''b 1'', part_binary_id = Some 2\<rparr>,
               \<lparr>part_id = 12, part_subject = ''c 1'', part_binary_id = None\<rparr>],
      segments = [\<lparr>segment_id = 100, segment_message_id = ''m1'', segment_part_id = Some 10\<rparr>,
                  \<lparr>segment_id = 101, segment_message_id = ''m2'', segment_part_id = Some 11\<rparr>],
      releases = [], files = [], metablacks = []\<rparr> =
   Inr \<lparr>binaries = [\<lparr>binary_id = 2, binary_name = ''b''\<rparr>],
        parts = [\<lparr>part_id = 10, part_subject = ''a 1'', part_binary_id = None\<rparr>,
                 \<lparr>part_id = 11, part_subject = ''b 1'', part_binary_id = Some 2\<rparr>,
                 \<lparr>part_id = 12, part_subject = ''c 1'', part_binary_id = None\<rparr>],
        segments = [\<lparr>segment_id = 100, segment_message_id = ''m1'', segment_part_id = Some 10\<rparr>,
                    \<lparr>segment_id = 101, segment_message_id = ''m2'', segment_part_id = Some 11\<rparr>],
        releases = [], files = [], metablacks = []\<rparr>"
  using delete_binary_deletes_its_parts [of 1
     "\<lparr>binaries = [\<lparr>binary_id = 1, binary_name = ''a''\<rparr>, \<lparr>binary_id = 2, binary_name = ''b''\<rparr>],
      parts = [\<lparr>part_id = 10, part_subject = ''a 1'', part_binary_id = Some 1\<rparr>,
               \<lparr>part_id = 11, part_subject = ''b 1'', part_binary_id = Some 2\<rparr>,
               \<lparr>part_id = 12, part_subject = ''c 1'', part_binary_id = None\<rparr>],
      segments = [\<lparr>segment_id = 100, segment_message_id = ''m1'', segment_part_id = Some 10\<rparr>,
                  \<lparr>segment_id = 101, segment_message_id = ''m2'', segment_part_id = Some 11\<rparr>],
      releases = [], files = [], metablacks = []\<rparr>"]
  by (simp add: session_delete_binary_def clear_binary_id_def delete_binary_def
        delete_binaries_result has_id_def refers_def)

text \<open>
  C6 as stated fails: after the \<open>DELETE\<close> of a binary, the part that referenced it
  does not remain.
\<close>

theorem delete_binary_part_not_kept:
  "part_binary_id \<lparr>part_id = 10, part_subject = ''a 1'', part_binary_id = Some 1\<rparr> = Some 1 \<and>
   delete_binary 1
     \<lparr>binaries = [\<lparr>binary_id = 1, binary_name = ''a''\<rparr>],
      parts = [\<lparr>part_id = 10, part_subject = ''a 1'', part_binary_id = Some 1\<rparr>],
      segments = [\<lparr>segment_id = 100, segment_message_id = ''m1'', segment_part_id = Some 10\<rparr>],
      releases = [], files = [], metablacks = []\<rparr> =
   Inr \<lparr>binaries = [], parts = [], segments = [], releases = [], files = [], metablacks = []\<rparr>"
  by (simp add: delete_binary_def delete_binaries_def delete_parts_def delete_segments_def
        referential_action_def then_do_def Part_binary_id_def Segment_part_id_def has_id_def
        refers_def)

subsection \<open>MetaBlack rows and the releases that point to them\<close>

lemma refers_union:
  "set zs = set xs \<union> set ys \<Longrightarrow>
     refers column zs row \<longleftrightarrow> refers column xs row \<or> refers column ys row"
  by (auto simp: refers_def split: option.splits)

lemma without_releases_step:
  "delete_releases C (without_releases L d) = Inr (without_releases (\<lambda>row. L row \<or> C row) d)"
proof -
  have ids: "set (map release_id (filter (\<lambda>row. L row \<or> C row) (releases d))) =
             set (map release_id (filter L (releases d))) \<union>
             set (map release_id (filter C (filter (\<lambda>row. \<not> L row) (releases d))))"
    by auto
  have "filter (\<lambda>row. \<not> refers file_release_id
                  (map release_id (filter C (filter (\<lambda>row. \<not> L row) (releases d)))) row)
          (filter (\<lambda>row. \<not> refers file_release_id (map release_id (filter L (releases d))) row)
             (files d)) =
        filter (\<lambda>row. \<not> refers file_release_id
                  (map release_id (filter (\<lambda>row. L row \<or> C row) (releases d))) row) (files d)"
    unfolding filter_filter by (rule filter_cong [OF refl]) (simp add: refers_union [OF ids])
  moreover have "filter (\<lambda>row. \<not> C row) (filter (\<lambda>row. \<not> L row) (releases d)) =
                 filter (\<lambda>row. \<not> (L row \<or> C row)) (releases d)"
    unfolding filter_filter by (rule filter_cong [OF refl]) simp
  ultimately show ?thesis
    by (simp add: delete_releases_result without_releases_def)
qed

lemma without_releases_none: "without_releases (\<lambda>row. False) d = d"
  by (simp add: without_releases_def refers_no_keys)

lemma metablack_actions_result:
  "metablack_actions metablack_links keys d =
     Inr (without_releases
            (\<lambda>row. refers tvshow_metablack_id keys row \<or> refers movie_metablack_id keys row \<or>
                   refers rar_metablack_id keys row \<or> refers nfo_metablack_id keys row \<or>
                   refers sfv_metablack_id keys row) d)"
proof -
  have start: "metablack_actions metablack_links keys d =
               metablack_actions metablack_links keys (without_releases (\<lambda>row. False) d)"
    by (simp add: without_releases_none)
  have cascade: "referential_action (ForeignKey ''metablack.id'' (Some ''CASCADE'')) C rows
                   delete_releases (without_releases L d) =
                 Inr (without_releases (\<lambda>row. L row \<or> C row) d)" for C rows L
    by (simp add: referential_action_def without_releases_step)
  show ?thesis
    unfolding start
    by (simp add: metablack_links_def then_do_def cascade
        Release_tvshow_metablack_id_def Release_movie_metablack_id_def
        Release_rar_metablack_id_def Release_nfo_metablack_id_def Release_sfv_metablack_id_def)
qed

text \<open>
  C7 (amended). The five metablack link columns of \<open>Release\<close> are declared with
  \<open>ondelete='CASCADE'\<close>: deleting a MetaBlack row deletes every Release row that points
  to it through one of them; every other Release row remains present and unchanged.
\<close>

theorem delete_metablack_deletes_its_releases:
  assumes "k \<in> set (map metablack_id (metablacks d))"
  shows "\<exists>d'. delete_metablack k d = Inr d' \<and>
           metablacks d' = filter (\<lambda>row. metablack_id row \<noteq> k) (metablacks d) \<and>
           releases d' =
             filter (\<lambda>row. tvshow_metablack_id row \<noteq> Some k \<and> movie_metablack_id row \<noteq> Some k \<and>
                          rar_metablack_id row \<noteq> Some k \<and> nfo_metablack_id row \<noteq> Some k \<and>
                          sfv_metablack_id row \<noteq> Some k) (releases d)"
proof -
  let ?keys = "map metablack_id (filter (has_id metablack_id k) (metablacks d))"
  have keys: "set ?keys = {k}"
    using assms by (rule keys_has_id)
  have r: "refers column ?keys row \<longleftrightarrow> column row = Some k"
    for column :: "release \<Rightarrow> int option" and row
    using keys by (rule refers_single)
  show ?thesis
    by (simp add: delete_metablack_def delete_metablacks_def Let_def metablack_actions_result
          then_do_def r without_releases_def) (simp add: has_id_def)
qed

text \<open>
  Two releases with a MetaBlack row each in the movie slot: deleting the first MetaBlack
  row deletes the first release and its file, and leaves the second release as it was.
\<close>

theorem delete_metablack_deletes_its_releases_witness:
  "7 \<in> set (map metablack_id (metablacks
     \<lparr>binaries = [], parts = [], segments = [],
      releases = [\<lparr>release_id = 5, release_name = ''r'', tvshow_metablack_id = None,
                   movie_metablack_id = Some 7, rar_metablack_id = None,
                   nfo_metablack_id = None, sfv_metablack_id = None\<rparr>,
                  \<lparr>release_id = 6, release_name = ''s'', tvshow_metablack_id = None,
                   movie_metablack_id = Some 8, rar_metablack_id = None,
                   nfo_metablack_id = None, sfv_metablack_id = None\<rparr>],
      files = [\<lparr>file_id = 1, file_name = ''f'', file_release_id = Some 5\<rparr>],
      metablacks = [\<lparr>metablack_id = 7, metablack_status = IMPOSSIBLE\<rparr>,
                    \<lparr>metablack_id = 8, metablack_status = ATTEMPTED\<rparr>]\<rparr>)) \<and>
   delete_metablack 7
     \<lparr>binaries = [], parts = [], segments = [],
      releases = [\<lparr>release_id = 5, release_name = ''r'', tvshow_metablack_id = None,
                   movie_metablack_id = Some 7, rar_metablack_id = None,
                   nfo_metablack_id = None, sfv_metablack_id = None\<rparr>,
                  \<lparr>release_id = 6, release_name = ''s'', tvshow_metablack_id = None,
                   movie_metablack_id = Some 8, rar_metablack_id = None,
                   nfo_metablack_id = None, sfv_metablack_id = None\<rparr>],
      files = [\<lparr>file_id = 1, file_name = ''f'', file_release_id = Some 5\<rparr>],
      metablacks = [\<lparr>metablack_id = 7, metablack_status = IMPOSSIBLE\<rparr>,
                    \<lparr>metablack_id = 8, metablack_status = ATTEMPTED\<rparr>]\<rparr> =
   Inr \<lparr>binaries = [], parts = [], segments = [],
        releases = [\<lparr>release_id = 6, release_name = ''s'', tvshow_metablack_id = None,
                     movie_metablack_id = Some 8, rar_metablack_id = None,
                     nfo_metablack_id = None, sfv_metablack_id = None\<rparr>],
        files = [],
        metablacks = [\<lparr>metablack_id = 8, metablack_status = ATTEMPTED\<rparr>]\<rparr>"
  using delete_metablack_deletes_its_releases [of 7
     "\<lparr>binaries = [], parts = [], segments = [],
      releases = [\<lparr>release_id = 5, release_name = ''r'', tvshow_metablack_id = None,
                   movie_metablack_id = Some 7, rar_metablack_id = None,
                   nfo_metablack_id = None, sfv_metablack_id = None\<rparr>,
                  \<lparr>release_id = 6, release_name = ''s'', tvshow_metablack_id = None,
                   movie_metablack_id = Some 8, rar_metablack_id = None,
                   nfo_metablack_id = None, sfv_metablack_id = None\<rparr>],
      files = [\<lparr>file_id = 1, file_name = ''f'', file_release_id = Some 5\<rparr>],
      metablacks = [\<lparr>metablack_id = 7, metablack_status = IMPOSSIBLE\<rparr>,
                    \<lparr>metablack_id = 8, metablack_status = ATTEMPTED\<rparr>]\<rparr>"]
  by (simp add: delete_metablack_def delete_metablacks_def metablack_links_def
        delete_releases_def delete_files_def
        referential_action_def then_do_def has_id_def refers_def File_release_id_def
        Release_tvshow_metablack_id_def Release_movie_metablack_id_def
        Release_rar_metablack_id_def Release_nfo_metablack_id_def Release_sfv_metablack_id_def)

text \<open>
  C7 as stated fails: the release whose movie slot pointed to the deleted MetaBlack row
  does not remain with that slot cleared, it is deleted.
\<close>

theorem delete_metablack_release_not_kept:
  "delete_metablack 7
     \<lparr>binaries = [], parts = [], segments = [],
      releases = [\<lparr>release_id = 5, release_name = ''r'', tvshow_metablack_id = None,
                   movie_metablack_id = Some 7, rar_metablack_id = None,
                   nfo_metablack_id = None, sfv_metablack_id = None\<rparr>],
      files = [\<lparr>file_id = 1, file_name = ''f'', file_release_id = Some 5\<rparr>],
      metablacks = [\<lparr>metablack_id = 7, metablack_status = IMPOSSIBLE\<rparr>]\<rparr> =
   Inr \<lparr>binaries = [], parts = [], segments = [], releases = [], files = [], metablacks = []\<rparr>"
  by (simp add: delete_metablack_def delete_metablacks_def metablack_links_def
        delete_releases_def delete_files_def
        referential_action_def then_do_def has_id_def refers_def File_release_id_def
        Release_tvshow_metablack_id_def Release_movie_metablack_id_def
        Release_rar_metablack_id_def Release_nfo_metablack_id_def Release_sfv_metablack_id_def)

section \<open>The transaction scope\<close>




section \<open>The xref migration\<close>




lemma coerce_error: "coerce ty s = Inl e \<Longrightarrow> e = DataError"
  by (auto simp: coerce_def split: option.splits if_splits)

lemma coerce_all_refused:
  "v \<in> set vs \<Longrightarrow> coerce ty v = Inl DataError \<Longrightarrow> coerce_all ty vs = Inl DataError"
proof (induction vs)
  case Nil
  then show ?case by simp
next
  case (Cons a vs)
  show ?case
  proof (cases "coerce ty a")
    case (Inl e)
    then show ?thesis using coerce_error [OF Inl] by (simp add: then_do_def)
  next
    case (Inr a')
    then have "v \<in> set vs" using Cons.prems by auto
    then show ?thesis using Cons Inr by (simp add: then_do_def)
  qed
qed

text \<open>
  The downgrade narrows the columns again, and the database refuses it when a value that
  is stored is longer than 256 characters and its characters after the first 256 are not
  all spaces.
\<close>

lemma downgrade_refuses_long_value:
  assumes "map_of t (''binaries'', ''xref'') = Some b"
    and "v \<in> set (col_values b)" and "256 < length v" and "\<not> excess_blank 256 v"
  shows "downgrade t = Inl DataError"
proof -
  have "coerce (String (Some 256)) v = Inl DataError"
    using assms(3,4) by (simp add: coerce_def)
  then have "coerce_all (String (Some 256)) (col_values b) = Inl DataError"
    using assms(2) by (intro coerce_all_refused)
  then show ?thesis
    using assms(1) by (simp add: downgrade_def alter_column_def then_do_def)
qed




end
